theory Spec2Isabelle
  imports Complex_Main "HOL-Library.Sublist"
begin

section \<open>Data model\<close>

text \<open>
  The repository holds two analysers: the class \<open>LogAnalyzer\<close> of \<open>log_system.py\<close>
  (a fixed set of devices, configured by the dictionary \<open>CONFIG\<close>) and the function
  \<open>log_analyzer\<close> of \<open>log_analyzer.py\<close> (devices discovered from the queue, module
  constants \<open>N\<close>, \<open>T\<close>, \<open>S\<close>). Names of the second module carry the prefix \<open>la_\<close>.

  A log is a dictionary with the keys \<open>device_id\<close>, \<open>timestamp\<close>, \<open>log_level\<close> and
  \<open>message\<close>; the level ranges over \<open>CONFIG['log_levels']\<close>. Ratios are Python floats
  in the source and exact rationals here: rounding is not modelled.
\<close>

datatype level = INFO | WARN | ERROR

record log =
  device_id :: string
  timestamp :: string
  log_level :: level
  message :: string

datatype error =
  ValueError string
  | KeyError string
  | ZeroDivisionError

subsection \<open>\<open>collections.deque\<close> with \<open>maxlen\<close>\<close>

text \<open>
  \<open>deque(maxlen=n)\<close> raises \<open>ValueError\<close> for a negative \<open>n\<close>. \<open>append\<close> adds on the right
  and, when the length then exceeds \<open>maxlen\<close>, drops the leftmost item.
\<close>

record 'a deque =
  maxlen :: nat
  items :: "'a list"

definition deque_new :: "int \<Rightarrow> error + 'a deque" where
  "deque_new n =
     (if n < 0 then Inl (ValueError ''maxlen must be non-negative'')
      else Inr \<lparr>maxlen = nat n, items = []\<rparr>)"

definition deque_append :: "'a deque \<Rightarrow> 'a \<Rightarrow> 'a deque" where
  "deque_append q x =
     (let ys = items q @ [x]
      in q\<lparr>items := (if maxlen q < length ys then tl ys else ys)\<rparr>)"

definition deque_clear :: "'a deque \<Rightarrow> 'a deque" where
  "deque_clear q = q\<lparr>items := []\<rparr>"


subsection \<open>Producer\<close>

text \<open>
  \<open>generate_log\<close> of \<open>log_producer.py\<close> (and \<open>LogGenerator.generate_log\<close>): the clock
  reading and the two random choices are parameters.
\<close>

definition generate_log :: "string \<Rightarrow> string \<Rightarrow> level \<Rightarrow> string \<Rightarrow> log" where
  "generate_log d ts lv msg = \<lparr>device_id = d, timestamp = ts, log_level = lv, message = msg\<rparr>"

subsection \<open>Clock\<close>

text \<open>
  \<open>datetime.now().strftime(...)\<close> and \<open>time.strftime(...)\<close> read the wall clock. The clock
  is a parameter \<open>now\<close>: the formatted reading at the \<open>k\<close>-th call; the state counts the
  calls in \<open>ticks\<close>. \<open>fixed_clock ts\<close> is a clock that stands still.
\<close>

definition fixed_clock :: "string \<Rightarrow> nat \<Rightarrow> string" where
  "fixed_clock ts k = ts"

definition final :: "(error \<times> 's) + 's \<Rightarrow> 's" where
  "final r = (case r of Inl (e, s) \<Rightarrow> s | Inr s \<Rightarrow> s)"

section \<open>\<open>log_system.py\<close>\<close>

record config =
  device_ids :: "string list"
  analysis_window :: int
  analysis_interval :: int
  alert_threshold :: rat
  alert_window :: int
  log_generation_interval :: rat

text \<open>The dictionary \<open>CONFIG\<close>, without the keys only the generator reads.\<close>

definition CONFIG :: config where
  "CONFIG =
     \<lparr>device_ids = [''device1'', ''device2'', ''device3''],
      analysis_window = 20,
      analysis_interval = 5,
      alert_threshold = 1 / 2,
      alert_window = 10,
      log_generation_interval = 1 / 10\<rparr>"

record alert =
  alert_device_id :: string
  alert_timestamp :: string
  alert_message :: string
  severity :: string

record status =
  last_error :: "log option"
  alerts :: "alert list"

record analysis_result =
  result_device_id :: string
  result_timestamp :: string
  error_ratio :: rat
  warn_ratio :: rat
  result_last_error :: "log option"
  alert_count :: nat

text \<open>
  The state: the three dictionaries of a \<open>LogAnalyzer\<close> and the three module-level
  queues (a queue is the list of its items, the oldest first).
\<close>

record system =
  logs_cache :: "string \<rightharpoonup> log deque"
  device_status :: "string \<rightharpoonup> status"
  alert_windows :: "string \<rightharpoonup> rat deque"
  log_queue :: "log list"
  analysis_queue :: "analysis_result list"
  alert_queue :: "alert list"
  ticks :: nat

text \<open>\<open>{device_id: deque(maxlen=n) for device_id in ids}\<close>\<close>

primrec deque_dict :: "int \<Rightarrow> string list \<Rightarrow> error + (string \<rightharpoonup> 'a deque)" where
  "deque_dict n [] = Inr Map.empty"
| "deque_dict n (d # ds) =
     (case deque_new n of
        Inl e \<Rightarrow> Inl e
      | Inr q \<Rightarrow>
          (case deque_dict n ds of
             Inl e \<Rightarrow> Inl e
           | Inr m \<Rightarrow> Inr (m(d \<mapsto> q))))"

text \<open>\<open>LogAnalyzer.__init__\<close>, with the queues as the module creates them.\<close>

definition LogAnalyzer_init :: "config \<Rightarrow> error + system" where
  "LogAnalyzer_init cfg =
     (case deque_dict (analysis_window cfg) (device_ids cfg) of
        Inl e \<Rightarrow> Inl e
      | Inr lc \<Rightarrow>
          (case deque_dict (alert_window cfg) (device_ids cfg) of
             Inl e \<Rightarrow> Inl e
           | Inr aw \<Rightarrow>
               Inr \<lparr>logs_cache = lc,
                    device_status =
                      map_of (map (\<lambda>d. (d, \<lparr>last_error = None, alerts = []\<rparr>)) (device_ids cfg)),
                    alert_windows = aw,
                    log_queue = [],
                    analysis_queue = [],
                    alert_queue = [],
                    ticks = 0\<rparr>))"

text \<open>The alert message: \<open>f"..."\<close> around the device id, as UTF-8 bytes.\<close>

definition alert_text :: "string \<Rightarrow> string" where
  "alert_text d =
     map char_of [232, 174, 190, 229, 164, 135 :: nat] @ d @ '' ERROR''
     @ map char_of [230, 175, 148, 228, 190, 139, 232, 182, 133, 232, 191, 135 :: nat]
     @ ''50%''"

text \<open>\<open>analyze_logs\<close>, lines 101-104: the last ERROR of the snapshot is stored.\<close>

definition update_last_error :: "string \<Rightarrow> log list \<Rightarrow> system \<Rightarrow> (error \<times> system) + system" where
  "update_last_error d error_logs s =
     (if error_logs = [] then Inr s
      else
        (case device_status s d of
           None \<Rightarrow> Inl (KeyError d, s)
         | Some st \<Rightarrow>
             Inr (s\<lparr>device_status :=
                      (device_status s)(d \<mapsto> st\<lparr>last_error := Some (last error_logs)\<rparr>)\<rparr>)))"

text \<open>\<open>analyze_logs\<close>, lines 106-121: the sample is appended and the window checked.\<close>

definition check_alert ::
  "config \<Rightarrow> (nat \<Rightarrow> string) \<Rightarrow> string \<Rightarrow> rat \<Rightarrow> system \<Rightarrow> (error \<times> system) + system" where
  "check_alert cfg now d r s =
     (case alert_windows s d of
        None \<Rightarrow> Inl (KeyError d, s)
      | Some w \<Rightarrow>
          (let w1 = deque_append w r;
               s1 = s\<lparr>alert_windows := (alert_windows s)(d \<mapsto> w1)\<rparr>
           in
             if int (length (items w1)) = alert_window cfg then
               if alert_window cfg = 0 then Inl (ZeroDivisionError, s1)
               else
                 (let avg_error_ratio = sum_list (items w1) / of_int (alert_window cfg)
                  in
                    if avg_error_ratio > alert_threshold cfg then
                      (let a = \<lparr>alert_device_id = d,
                                alert_timestamp = now (ticks s1),
                                alert_message = alert_text d,
                                severity = ''CRITICAL''\<rparr>;
                           s2 = s1\<lparr>ticks := Suc (ticks s1)\<rparr>
                       in
                         case device_status s2 d of
                           None \<Rightarrow> Inl (KeyError d, s2)
                         | Some st \<Rightarrow>
                             Inr (s2\<lparr>device_status :=
                                       (device_status s2)(d \<mapsto> st\<lparr>alerts := alerts st @ [a]\<rparr>),
                                     alert_queue := alert_queue s2 @ [a],
                                     alert_windows :=
                                       (alert_windows s2)(d \<mapsto> deque_clear w1)\<rparr>))
                    else Inr s1)
             else Inr s1))"

text \<open>\<open>analyze_logs\<close>, lines 123-133: the result is built and published.\<close>

definition publish_result ::
  "(nat \<Rightarrow> string) \<Rightarrow> string \<Rightarrow> rat \<Rightarrow> rat \<Rightarrow> system \<Rightarrow> (error \<times> system) + system" where
  "publish_result now d er wr s =
     (let s1 = s\<lparr>ticks := Suc (ticks s)\<rparr>
      in
        case device_status s1 d of
          None \<Rightarrow> Inl (KeyError d, s1)
        | Some st \<Rightarrow>
            Inr (s1\<lparr>analysis_queue :=
                      analysis_queue s1 @
                        [\<lparr>result_device_id = d,
                          result_timestamp = now (ticks s),
                          error_ratio = er,
                          warn_ratio = wr,
                          result_last_error = last_error st,
                          alert_count = length (alerts st)\<rparr>]\<rparr>))"

text \<open>The body of the loop of \<open>analyze_logs\<close> for one device.\<close>

definition analyze_device ::
  "config \<Rightarrow> (nat \<Rightarrow> string) \<Rightarrow> string \<Rightarrow> system \<Rightarrow> (error \<times> system) + system" where
  "analyze_device cfg now d s =
     (case logs_cache s d of
        None \<Rightarrow> Inl (KeyError d, s)
      | Some cache \<Rightarrow>
          (let logs = items cache
           in
             if logs = [] then Inr s
             else
               (let total = length logs;
                    error_count = length (filter (\<lambda>l. log_level l = ERROR) logs);
                    warn_count = length (filter (\<lambda>l. log_level l = WARN) logs);
                    error_ratio = of_nat error_count / of_nat total;
                    warn_ratio = of_nat warn_count / of_nat total;
                    error_logs = filter (\<lambda>l. log_level l = ERROR) logs
                in
                  case update_last_error d error_logs s of
                    Inl e \<Rightarrow> Inl e
                  | Inr s1 \<Rightarrow>
                      (case check_alert cfg now d error_ratio s1 of
                         Inl e \<Rightarrow> Inl e
                       | Inr s2 \<Rightarrow> publish_result now d error_ratio warn_ratio s2))))"

fun analyze_loop ::
  "config \<Rightarrow> (nat \<Rightarrow> string) \<Rightarrow> string list \<Rightarrow> system \<Rightarrow> (error \<times> system) + system" where
  "analyze_loop cfg now [] s = Inr s"
| "analyze_loop cfg now (d # ds) s =
     (case analyze_device cfg now d s of
        Inl e \<Rightarrow> Inl e
      | Inr s1 \<Rightarrow> analyze_loop cfg now ds s1)"

definition analyze_logs :: "config \<Rightarrow> (nat \<Rightarrow> string) \<Rightarrow> system \<Rightarrow> (error \<times> system) + system" where
  "analyze_logs cfg now s = analyze_loop cfg now (device_ids cfg) s"

text \<open>
  One pass of the loop of \<open>process_logs\<close>. \<open>get_nowait\<close> raises on an empty queue and
  \<open>logs_cache[device_id]\<close> on an unknown device; the bare \<open>except\<close> catches both and
  sleeps. The first component tells whether the pass ended in the handler.
\<close>

definition process_logs_step :: "system \<Rightarrow> bool \<times> system" where
  "process_logs_step s =
     (case log_queue s of
        [] \<Rightarrow> (True, s)
      | l # rest \<Rightarrow>
          (let s1 = s\<lparr>log_queue := rest\<rparr>
           in
             case logs_cache s1 (device_id l) of
               None \<Rightarrow> (True, s1)
             | Some q \<Rightarrow>
                 (False, s1\<lparr>logs_cache := (logs_cache s1)(device_id l \<mapsto> deque_append q l)\<rparr>)))"

text \<open>\<open>process_logs\<close> never returns; \<open>n\<close> passes of its loop.\<close>

fun process_logs :: "nat \<Rightarrow> system \<Rightarrow> system" where
  "process_logs 0 s = s"
| "process_logs (Suc n) s = process_logs n (snd (process_logs_step s))"

text \<open>
  One pass of the loop of \<open>LogAnalyzer.start\<close>; \<open>time.sleep\<close> raises \<open>ValueError\<close> for
  a negative length.
\<close>

definition start_step :: "config \<Rightarrow> (nat \<Rightarrow> string) \<Rightarrow> system \<Rightarrow> (error \<times> system) + system" where
  "start_step cfg now s =
     (if analysis_interval cfg < 0
      then Inl (ValueError ''sleep length must be non-negative'', s)
      else analyze_logs cfg now s)"

text \<open>
  The threads of \<open>main\<close> run interleaved. A schedule lists their steps: a generator puts a
  log on \<open>log_queue\<close>, the processing thread makes one pass of its loop, the analysis thread
  one pass of its own (taken as atomic). An exception in the analysis thread ends it; the
  run stops there with the state reached, since nothing is published afterwards.
\<close>

datatype event = Put log | Process | Analyze

fun run :: "config \<Rightarrow> (nat \<Rightarrow> string) \<Rightarrow> event list \<Rightarrow> system \<Rightarrow> (error \<times> system) + system" where
  "run cfg now [] s = Inr s"
| "run cfg now (Put l # evs) s = run cfg now evs (s\<lparr>log_queue := log_queue s @ [l]\<rparr>)"
| "run cfg now (Process # evs) s = run cfg now evs (snd (process_logs_step s))"
| "run cfg now (Analyze # evs) s =
     (case start_step cfg now s of
        Inl e \<Rightarrow> Inl e
      | Inr s1 \<Rightarrow> run cfg now evs s1)"

text \<open>
  \<open>main\<close>: the analyser is constructed, then the threads run. When the constructor
  raises, nothing has been processed or published.
\<close>

definition no_system :: system where
  "no_system =
     \<lparr>logs_cache = Map.empty, device_status = Map.empty, alert_windows = Map.empty,
      log_queue = [], analysis_queue = [], alert_queue = [], ticks = 0\<rparr>"

definition main :: "config \<Rightarrow> (nat \<Rightarrow> string) \<Rightarrow> event list \<Rightarrow> (error \<times> system) + system" where
  "main cfg now evs =
     (case LogAnalyzer_init cfg of
        Inl e \<Rightarrow> Inl (e, no_system)
      | Inr s \<Rightarrow> run cfg now evs s)"

subsection \<open>Observations of a state\<close>

text \<open>The history of a device holds no ERROR log; its alert window holds zeros only.\<close>

definition no_error_in_history :: "string \<Rightarrow> system \<Rightarrow> bool" where
  "no_error_in_history d s =
     (case logs_cache s d of
        None \<Rightarrow> True
      | Some c \<Rightarrow> list_all (\<lambda>l. log_level l \<noteq> ERROR) (items c))"

definition zero_window :: "string \<Rightarrow> system \<Rightarrow> bool" where
  "zero_window d s =
     (case alert_windows s d of
        None \<Rightarrow> True
      | Some w \<Rightarrow> list_all (\<lambda>x. x = 0) (items w))"

text \<open>
  A result, an alert and a status without the clock readings they carry; two states that
  differ in nothing but such readings.
\<close>

definition erase_result :: "analysis_result \<Rightarrow> analysis_result" where
  "erase_result r = r\<lparr>result_timestamp := []\<rparr>"

definition erase_alert :: "alert \<Rightarrow> alert" where
  "erase_alert a = a\<lparr>alert_timestamp := []\<rparr>"

definition erase_status :: "status \<Rightarrow> status" where
  "erase_status st = st\<lparr>alerts := map erase_alert (alerts st)\<rparr>"

definition same_but_time :: "system \<Rightarrow> system \<Rightarrow> bool" where
  "same_but_time s t \<longleftrightarrow>
     logs_cache s = logs_cache t
     \<and> log_queue s = log_queue t
     \<and> alert_windows s = alert_windows t
     \<and> ticks s = ticks t
     \<and> (\<forall>d. map_option erase_status (device_status s d)
              = map_option erase_status (device_status t d))
     \<and> map erase_result (analysis_queue s) = map erase_result (analysis_queue t)
     \<and> map erase_alert (alert_queue s) = map erase_alert (alert_queue t)"

section \<open>\<open>log_analyzer.py\<close>\<close>

definition la_N :: int where
  "la_N = 100"

definition la_T :: int where
  "la_T = 5"

definition la_S :: int where
  "la_S = 10"

record la_result =
  la_device_id :: string
  la_error_ratio :: rat
  la_warn_ratio :: rat
  la_last_error :: "log option"
  la_timestamp :: string

record la_alert =
  la_alert_device_id :: string
  la_alert_message :: string
  la_alert_timestamp :: string

text \<open>
  \<open>device_logs\<close> is a dictionary that the loop iterates over: an association list in
  the order of first insertion.
\<close>

record la_state =
  device_logs :: "(string \<times> log deque) list"
  la_log_queue :: "log list"
  la_analysis_queue :: "la_result list"
  la_alert_queue :: "la_alert list"
  la_ticks :: nat

text \<open>\<open>dict[k] = v\<close>: a known key keeps its place, a new key goes to the end.\<close>

primrec dict_set :: "'k \<Rightarrow> 'v \<Rightarrow> ('k \<times> 'v) list \<Rightarrow> ('k \<times> 'v) list" where
  "dict_set k v [] = [(k, v)]"
| "dict_set k v (p # ps) = (if fst p = k then (k, v) # ps else p # dict_set k v ps)"

text \<open>The slice \<open>xs[i:]\<close>.\<close>

definition slice_from :: "int \<Rightarrow> 'a list \<Rightarrow> 'a list" where
  "slice_from i xs =
     (if i < 0 then drop (nat (int (length xs) + i)) xs else drop (nat i) xs)"

text \<open>
  Lines 15-21: when the queue is not empty, one log is taken from it and appended to the
  history of its device, which is created on first sight.
\<close>

definition la_ingest :: "la_state \<Rightarrow> la_state" where
  "la_ingest s =
     (case la_log_queue s of
        [] \<Rightarrow> s
      | l # rest \<Rightarrow>
          (let d = device_id l;
               s1 = s\<lparr>la_log_queue := rest\<rparr>;
               logs = (case map_of (device_logs s1) d of
                         None \<Rightarrow> \<lparr>maxlen = nat la_N, items = []\<rparr>
                       | Some q \<Rightarrow> q)
           in s1\<lparr>device_logs := dict_set d (deque_append logs l) (device_logs s1)\<rparr>))"

text \<open>Lines 26-55: the analysis of one device.\<close>

definition la_message :: string where
  "la_message =
     ''ERROR''
     @ map char_of [230, 175, 148, 228, 190, 139, 232, 182, 133, 232, 191, 135 :: nat]
     @ ''50%!''"

definition la_analyze_device :: "(nat \<Rightarrow> string) \<Rightarrow> string \<Rightarrow> log deque \<Rightarrow> la_state \<Rightarrow> la_state" where
  "la_analyze_device now d q s =
     (let logs = items q
      in
        if logs = [] then s
        else
          (let error_count = length (filter (\<lambda>l. log_level l = ERROR) logs);
               warn_count = length (filter (\<lambda>l. log_level l = WARN) logs);
               total = length logs;
               error_ratio = of_nat error_count / of_nat total;
               warn_ratio = of_nat warn_count / of_nat total;
               last_error = find (\<lambda>l. log_level l = ERROR) (rev logs);
               s1 = s\<lparr>la_analysis_queue :=
                        la_analysis_queue s @
                          [\<lparr>la_device_id = d,
                            la_error_ratio = error_ratio,
                            la_warn_ratio = warn_ratio,
                            la_last_error = last_error,
                            la_timestamp = now (la_ticks s)\<rparr>],
                      la_ticks := Suc (la_ticks s)\<rparr>;
               recent_logs = slice_from (- (la_S * 10)) logs
           in
             if length recent_logs > 0 \<and>
                (of_nat (length (filter (\<lambda>l. log_level l = ERROR) recent_logs))
                   / of_nat (length recent_logs) :: rat) > 1 / 2
             then
               s1\<lparr>la_alert_queue :=
                    la_alert_queue s1 @
                      [\<lparr>la_alert_device_id = d,
                        la_alert_message = la_message,
                        la_alert_timestamp = now (la_ticks s1)\<rparr>],
                  la_ticks := Suc (la_ticks s1)\<rparr>
             else s1))"

fun la_analyze_all :: "(nat \<Rightarrow> string) \<Rightarrow> (string \<times> log deque) list \<Rightarrow> la_state \<Rightarrow> la_state" where
  "la_analyze_all now [] s = s"
| "la_analyze_all now ((d, q) # ps) s = la_analyze_all now ps (la_analyze_device now d q s)"

text \<open>One pass of the loop of \<open>log_analyzer\<close>: at most one log, a sleep, the analysis.\<close>

definition la_iteration :: "(nat \<Rightarrow> string) \<Rightarrow> la_state \<Rightarrow> la_state" where
  "la_iteration now s = (let s1 = la_ingest s in la_analyze_all now (device_logs s1) s1)"

text \<open>\<open>log_analyzer\<close> never returns; \<open>n\<close> passes of its loop, from the empty dictionary.\<close>

fun la_loop :: "(nat \<Rightarrow> string) \<Rightarrow> nat \<Rightarrow> la_state \<Rightarrow> la_state" where
  "la_loop now 0 s = s"
| "la_loop now (Suc n) s = la_loop now n (la_iteration now s)"

definition log_analyzer :: "(nat \<Rightarrow> string) \<Rightarrow> nat \<Rightarrow> log list \<Rightarrow> la_state" where
  "log_analyzer now n queue =
     la_loop now n
       \<lparr>device_logs = [], la_log_queue = queue, la_analysis_queue = [],
        la_alert_queue = [], la_ticks = 0\<rparr>"

section \<open>Sample data\<close>

definition sample_logs :: "log list" where
  "sample_logs =
     [generate_log ''device1'' ''2025-01-01 00:00:01'' INFO ''started'',
      generate_log ''device1'' ''2025-01-01 00:00:02'' ERROR ''crashed'',
      generate_log ''device1'' ''2025-01-01 00:00:03'' WARN ''disk'',
      generate_log ''device1'' ''2025-01-01 00:00:04'' INFO ''done'']"

text \<open>The state after the sample logs were put on the queue and processed.\<close>

definition sample_state :: system where
  "sample_state =
     final (main CONFIG (fixed_clock ''2025-01-01 00:00:00'')
       (map Put sample_logs @ [Process, Process, Process, Process]))"

text \<open>
  One ERROR log of \<open>device1\<close>, and the state after it was processed and nine analysis
  cycles have run: the alert window of \<open>device1\<close> holds nine samples of ratio 1.
\<close>

definition error_log :: log where
  "error_log = generate_log ''device1'' ''2025-01-01 00:00:01'' ERROR ''crashed''"

definition nine_cycles :: "event list" where
  "nine_cycles =
     [Put error_log, Process,
      Analyze, Analyze, Analyze, Analyze, Analyze, Analyze, Analyze, Analyze, Analyze]"

definition breach_state :: system where
  "breach_state = final (main CONFIG (fixed_clock ''2025-01-01 00:00:00'') nine_cycles)"

text \<open>
  An INFO log of \<open>device1\<close>, and a state of \<open>log_analyzer\<close> in which the history of
  \<open>device1\<close> is full (one ERROR log followed by 99 INFO logs) and one more INFO log waits
  on the queue.
\<close>

definition info_log :: log where
  "info_log = generate_log ''device1'' ''2025-01-01 00:00:02'' INFO ''started''"

definition full_state :: la_state where
  "full_state =
     \<lparr>device_logs = [(''device1'', \<lparr>maxlen = 100, items = error_log # replicate 99 info_log\<rparr>)],
      la_log_queue = [info_log],
      la_analysis_queue = [],
      la_alert_queue = [],
      la_ticks = 0\<rparr>"

text \<open>A log of a device that \<open>CONFIG\<close> does not list.\<close>

definition unknown_log :: log where
  "unknown_log = generate_log ''device9'' ''2025-01-01 00:00:03'' INFO ''started''"

section \<open>Bounded history\<close>

lemma maxlen_deque_append [simp]: "maxlen (deque_append q x) = maxlen q"
  by (simp add: deque_append_def Let_def)

lemma items_deque_append:
  "items (deque_append q x) =
     (if maxlen q < Suc (length (items q)) then tl (items q @ [x]) else items q @ [x])"
  by (simp add: deque_append_def Let_def)



lemma foldl_deque_append_maxlen [simp]: "maxlen (foldl deque_append q xs) = maxlen q"
  by (induction xs arbitrary: q) simp_all



section \<open>One device in one analysis cycle\<close>

lemma update_last_error_explicit:
  assumes "device_status s d = Some st"
  shows "update_last_error d errs s =
     Inr (s\<lparr>device_status := (device_status s)
            (d \<mapsto> st\<lparr>last_error := (if errs = [] then last_error st else Some (last errs))\<rparr>)\<rparr>)"
  using assms by (simp add: update_last_error_def map_upd_triv)

lemma check_alert_fire:
  assumes "alert_windows s d = Some w" and "device_status s d = Some st"
    and "alert_window cfg \<noteq> 0"
    and "int (length (items (deque_append w r))) = alert_window cfg"
    and "alert_threshold cfg < sum_list (items (deque_append w r)) / of_int (alert_window cfg)"
  shows "check_alert cfg now d r s =
     Inr (s\<lparr>alert_windows := (alert_windows s)(d \<mapsto> deque_clear (deque_append w r)),
           ticks := Suc (ticks s),
           device_status := (device_status s)
             (d \<mapsto> st\<lparr>alerts := alerts st @
                [\<lparr>alert_device_id = d, alert_timestamp = now (ticks s),
                  alert_message = alert_text d, severity = ''CRITICAL''\<rparr>]\<rparr>),
           alert_queue := alert_queue s @
                [\<lparr>alert_device_id = d, alert_timestamp = now (ticks s),
                  alert_message = alert_text d, severity = ''CRITICAL''\<rparr>]\<rparr>)"
  using assms by (simp add: check_alert_def Let_def)

lemma check_alert_quiet:
  assumes "alert_windows s d = Some w"
    and "alert_window cfg \<noteq> 0"
    and "\<not> (int (length (items (deque_append w r))) = alert_window cfg
            \<and> alert_threshold cfg < sum_list (items (deque_append w r)) / of_int (alert_window cfg))"
  shows "check_alert cfg now d r s =
     Inr (s\<lparr>alert_windows := (alert_windows s)(d \<mapsto> deque_append w r)\<rparr>)"
  using assms by (auto simp add: check_alert_def Let_def)

lemma publish_result_explicit:
  assumes "device_status s d = Some st"
  shows "publish_result now d er wr s =
     Inr (s\<lparr>ticks := Suc (ticks s),
           analysis_queue := analysis_queue s @
             [\<lparr>result_device_id = d, result_timestamp = now (ticks s),
               error_ratio = er, warn_ratio = wr,
               result_last_error = last_error st,
               alert_count = length (alerts st)\<rparr>]\<rparr>)"
  using assms by (simp add: publish_result_def Let_def)

lemma analyze_device_quiet:
  fixes now :: "nat \<Rightarrow> string" and cfg :: config
  assumes lc: "logs_cache s d = Some c" and ne: "items c \<noteq> []"
    and ds: "device_status s d = Some st"
    and aw: "alert_windows s d = Some w"
    and S: "alert_window cfg \<noteq> 0"
  defines "errs \<equiv> filter (\<lambda>l. log_level l = ERROR) (items c)"
  defines "er \<equiv> (of_nat (length errs) / of_nat (length (items c)) :: rat)"
  defines "wr \<equiv> (of_nat (length (filter (\<lambda>l. log_level l = WARN) (items c)))
                    / of_nat (length (items c)) :: rat)"
  defines "le \<equiv> (if errs = [] then last_error st else Some (last errs))"
  assumes quiet: "\<not> (int (length (items (deque_append w er))) = alert_window cfg
            \<and> alert_threshold cfg < sum_list (items (deque_append w er)) / of_int (alert_window cfg))"
  shows "analyze_device cfg now d s =
     Inr (s\<lparr>device_status := (device_status s)(d \<mapsto> st\<lparr>last_error := le\<rparr>),
           alert_windows := (alert_windows s)(d \<mapsto> deque_append w er),
           ticks := Suc (ticks s),
           analysis_queue := analysis_queue s @
             [\<lparr>result_device_id = d, result_timestamp = now (ticks s),
               error_ratio = er, warn_ratio = wr,
               result_last_error = le,
               alert_count = length (alerts st)\<rparr>]\<rparr>)"
proof -
  let ?s1 = "s\<lparr>device_status := (device_status s)(d \<mapsto> st\<lparr>last_error := le\<rparr>)\<rparr>"
  let ?s2 = "?s1\<lparr>alert_windows := (alert_windows ?s1)(d \<mapsto> deque_append w er)\<rparr>"
  have 1: "update_last_error d errs s = Inr ?s1"
    unfolding le_def by (rule update_last_error_explicit [OF ds])
  have 2: "check_alert cfg now d er ?s1 = Inr ?s2"
    by (rule check_alert_quiet [OF _ S quiet]) (simp add: aw)
  have "analyze_device cfg now d s =
      (case update_last_error d errs s of Inl e \<Rightarrow> Inl e
       | Inr s1 \<Rightarrow> (case check_alert cfg now d er s1 of Inl e \<Rightarrow> Inl e
                    | Inr s2 \<Rightarrow> publish_result now d er wr s2))"
    unfolding analyze_device_def errs_def er_def wr_def using lc ne by (simp add: Let_def)
  also have "\<dots> = publish_result now d er wr ?s2"
    by (simp only: 1 2 sum.case)
  finally show ?thesis
    by (simp add: publish_result_explicit [where st = "st\<lparr>last_error := le\<rparr>"])
qed

lemma analyze_device_fire:
  fixes now :: "nat \<Rightarrow> string" and cfg :: config
  assumes lc: "logs_cache s d = Some c" and ne: "items c \<noteq> []"
    and ds: "device_status s d = Some st"
    and aw: "alert_windows s d = Some w"
    and S: "alert_window cfg \<noteq> 0"
  defines "errs \<equiv> filter (\<lambda>l. log_level l = ERROR) (items c)"
  defines "er \<equiv> (of_nat (length errs) / of_nat (length (items c)) :: rat)"
  defines "wr \<equiv> (of_nat (length (filter (\<lambda>l. log_level l = WARN) (items c)))
                    / of_nat (length (items c)) :: rat)"
  defines "le \<equiv> (if errs = [] then last_error st else Some (last errs))"
  defines "a \<equiv> \<lparr>alert_device_id = d, alert_timestamp = now (ticks s),
                  alert_message = alert_text d, severity = ''CRITICAL''\<rparr>"
  assumes len: "int (length (items (deque_append w er))) = alert_window cfg"
    and avg: "alert_threshold cfg < sum_list (items (deque_append w er)) / of_int (alert_window cfg)"
  shows "analyze_device cfg now d s =
     Inr (s\<lparr>device_status := (device_status s)
             (d \<mapsto> st\<lparr>last_error := le, alerts := alerts st @ [a]\<rparr>),
           alert_windows := (alert_windows s)(d \<mapsto> deque_clear (deque_append w er)),
           alert_queue := alert_queue s @ [a],
           ticks := Suc (Suc (ticks s)),
           analysis_queue := analysis_queue s @
             [\<lparr>result_device_id = d, result_timestamp = now (Suc (ticks s)),
               error_ratio = er, warn_ratio = wr,
               result_last_error = le,
               alert_count = Suc (length (alerts st))\<rparr>]\<rparr>)"
proof -
  let ?st1 = "st\<lparr>last_error := le\<rparr>"
  let ?s1 = "s\<lparr>device_status := (device_status s)(d \<mapsto> ?st1)\<rparr>"
  let ?a = "\<lparr>alert_device_id = d, alert_timestamp = now (ticks ?s1),
                  alert_message = alert_text d, severity = ''CRITICAL''\<rparr>"
  let ?st2 = "?st1\<lparr>alerts := alerts ?st1 @ [?a]\<rparr>"
  let ?s2 = "?s1\<lparr>alert_windows := (alert_windows ?s1)(d \<mapsto> deque_clear (deque_append w er)),
           ticks := Suc (ticks ?s1),
           device_status := (device_status ?s1)(d \<mapsto> ?st2),
           alert_queue := alert_queue ?s1 @ [?a]\<rparr>"
  have 1: "update_last_error d errs s = Inr ?s1"
    unfolding le_def by (rule update_last_error_explicit [OF ds])
  have 2: "check_alert cfg now d er ?s1 = Inr ?s2"
    by (rule check_alert_fire [OF _ _ S len avg]) (simp_all add: aw)
  have "analyze_device cfg now d s =
      (case update_last_error d errs s of Inl e \<Rightarrow> Inl e
       | Inr s1 \<Rightarrow> (case check_alert cfg now d er s1 of Inl e \<Rightarrow> Inl e
                    | Inr s2 \<Rightarrow> publish_result now d er wr s2))"
    unfolding analyze_device_def errs_def er_def wr_def using lc ne by (simp add: Let_def)
  also have "\<dots> = publish_result now d er wr ?s2"
    by (simp only: 1 2 sum.case)
  finally show ?thesis
    by (simp add: publish_result_explicit
        [where st = "st\<lparr>last_error := le, alerts := alerts st @ [a]\<rparr>"] a_def)
qed

lemma update_last_error_frame:
  "alert_windows (final (update_last_error d errs s)) = alert_windows s
   \<and> alert_queue (final (update_last_error d errs s)) = alert_queue s
   \<and> logs_cache (final (update_last_error d errs s)) = logs_cache s
   \<and> log_queue (final (update_last_error d errs s)) = log_queue s"
  by (simp add: update_last_error_def final_def split: option.splits)

lemma publish_result_frame:
  "alert_windows (final (publish_result now d er wr s)) = alert_windows s
   \<and> alert_queue (final (publish_result now d er wr s)) = alert_queue s
   \<and> logs_cache (final (publish_result now d er wr s)) = logs_cache s
   \<and> log_queue (final (publish_result now d er wr s)) = log_queue s"
  by (simp add: publish_result_def final_def Let_def split: option.splits)

lemma check_alert_effect:
  "logs_cache (final (check_alert cfg now d r s)) = logs_cache s
   \<and> log_queue (final (check_alert cfg now d r s)) = log_queue s
   \<and> (\<forall>d'. d' \<noteq> d \<longrightarrow> alert_windows (final (check_alert cfg now d r s)) d' = alert_windows s d')
   \<and> (case alert_windows s d of
        None \<Rightarrow> alert_windows (final (check_alert cfg now d r s)) d = None
                 \<and> alert_queue (final (check_alert cfg now d r s)) = alert_queue s
      | Some w \<Rightarrow>
          (alert_windows (final (check_alert cfg now d r s)) d = Some (deque_append w r)
             \<and> alert_queue (final (check_alert cfg now d r s)) = alert_queue s)
          \<or> (int (length (items (deque_append w r))) = alert_window cfg
              \<and> alert_threshold cfg < sum_list (items (deque_append w r)) / of_int (alert_window cfg)
              \<and> alert_windows (final (check_alert cfg now d r s)) d = Some (deque_clear (deque_append w r))
              \<and> (\<exists>a. alert_device_id a = d
                     \<and> alert_queue (final (check_alert cfg now d r s)) = alert_queue s @ [a])))"
  by (simp add: check_alert_def final_def Let_def split: option.splits)

lemma final_bind:
  "final (case r of Inl e \<Rightarrow> Inl e | Inr s1 \<Rightarrow> g s1) =
     (case r of Inl (e, s1) \<Rightarrow> s1 | Inr s1 \<Rightarrow> final (g s1))"
  by (simp add: final_def split: sum.splits prod.splits)

lemma final_cases:
  obtains (Inl) e s1 where "r = Inl (e, s1)" "final r = s1"
        | (Inr) s1 where "r = Inr s1" "final r = s1"
  by (cases r) (auto simp: final_def)

lemma deque_clear_simps [simp]:
  "items (deque_clear q) = []" "maxlen (deque_clear q) = maxlen q"
  by (simp_all add: deque_clear_def)

lemma analyze_device_effect:
  fixes cfg now d s
  defines "R \<equiv> analyze_device cfg now d s"
  shows "logs_cache (final R) = logs_cache s
   \<and> log_queue (final R) = log_queue s
   \<and> (\<forall>d'. d' \<noteq> d \<longrightarrow> alert_windows (final R) d' = alert_windows s d')
   \<and> ((alert_windows (final R) d = alert_windows s d \<and> alert_queue (final R) = alert_queue s)
      \<or> (\<exists>c w. logs_cache s d = Some c \<and> items c \<noteq> [] \<and> alert_windows s d = Some w
           \<and> ((alert_windows (final R) d =
                   Some (deque_append w
                     (of_nat (length (filter (\<lambda>l. log_level l = ERROR) (items c)))
                        / of_nat (length (items c))))
                 \<and> alert_queue (final R) = alert_queue s)
               \<or> (int (length (items (deque_append w
                     (of_nat (length (filter (\<lambda>l. log_level l = ERROR) (items c)))
                        / of_nat (length (items c)))))) = alert_window cfg
                  \<and> alert_threshold cfg < sum_list (items (deque_append w
                     (of_nat (length (filter (\<lambda>l. log_level l = ERROR) (items c)))
                        / of_nat (length (items c))))) / of_int (alert_window cfg)
                  \<and> map_option items (alert_windows (final R) d) = Some []
                  \<and> (\<exists>a. alert_device_id a = d
                         \<and> alert_queue (final R) = alert_queue s @ [a])))))"
proof (cases "logs_cache s d")
  case None
  then have "final R = s" by (simp add: R_def analyze_device_def final_def)
  then show ?thesis by simp
next
  case (Some c)
  show ?thesis
  proof (cases "items c = []")
    case True
    with Some have "final R = s" by (simp add: R_def analyze_device_def final_def)
    then show ?thesis by simp
  next
    case False
    define errs where "errs = filter (\<lambda>l. log_level l = ERROR) (items c)"
    define er :: rat where "er = of_nat (length errs) / of_nat (length (items c))"
    define wr :: rat where "wr = of_nat (length (filter (\<lambda>l. log_level l = WARN) (items c)))
                    / of_nat (length (items c))"
    have R: "R = (case update_last_error d errs s of Inl e \<Rightarrow> Inl e
       | Inr s1 \<Rightarrow> (case check_alert cfg now d er s1 of Inl e \<Rightarrow> Inl e
                    | Inr s2 \<Rightarrow> publish_result now d er wr s2))"
      unfolding R_def analyze_device_def errs_def er_def wr_def using Some False
      by (simp add: Let_def)
    show ?thesis
    proof (cases "update_last_error d errs s" rule: final_cases)
      case (Inl e s1)
      then have "final R = s1" by (simp add: R final_def)
      with Inl(2) update_last_error_frame [of d errs s] show ?thesis by simp
    next
      case (Inr s1)
      note s1 = update_last_error_frame [of d errs s, unfolded Inr(2)]
      show ?thesis
      proof (cases "check_alert cfg now d er s1" rule: final_cases)
        case (Inl e s2)
        then have fin: "final R = s2" using Inr(1) by (simp add: R final_def)
        from check_alert_effect [of cfg now d er s1, unfolded Inl(2)] s1 Some False
        show ?thesis unfolding fin er_def errs_def
          by (auto split: option.splits)
      next
        case s2: (Inr s2)
        have fin: "final R = final (publish_result now d er wr s2)"
          using Inr(1) s2(1) by (simp add: R)
        from check_alert_effect [of cfg now d er s1, unfolded s2(2)] s1 Some False
          publish_result_frame [of now d er wr s2]
        show ?thesis unfolding fin er_def errs_def
          by (auto split: option.splits)
      qed
    qed
  qed
qed


lemma find_rev_last_filter:
  "find P (rev xs) = (if filter P xs = [] then None else Some (last (filter P xs)))"
proof (induction xs rule: rev_induct)
  case Nil
  then show ?case by simp
next
  case (snoc x xs)
  then show ?case by simp
qed

lemma analyze_device_publishes:
  fixes now :: "nat \<Rightarrow> string" and cfg :: config
  assumes lc: "logs_cache s d = Some c" and ne: "items c \<noteq> []"
    and ds: "device_status s d = Some st"
    and aw: "alert_windows s d = Some w"
    and S: "alert_window cfg \<noteq> 0"
  defines "errs \<equiv> filter (\<lambda>l. log_level l = ERROR) (items c)"
  defines "er \<equiv> (of_nat (length errs) / of_nat (length (items c)) :: rat)"
  defines "wr \<equiv> (of_nat (length (filter (\<lambda>l. log_level l = WARN) (items c)))
                    / of_nat (length (items c)) :: rat)"
  defines "le \<equiv> (if errs = [] then last_error st else Some (last errs))"
  defines "breach \<equiv> int (length (items (deque_append w er))) = alert_window cfg
            \<and> alert_threshold cfg < sum_list (items (deque_append w er)) / of_int (alert_window cfg)"
  defines "a \<equiv> \<lparr>alert_device_id = d, alert_timestamp = now (ticks s),
                  alert_message = alert_text d, severity = ''CRITICAL''\<rparr>"
  defines "R \<equiv> analyze_device cfg now d s"
  shows "\<not> isl R"
    and "analysis_queue (final R) = analysis_queue s @
             [\<lparr>result_device_id = d,
               result_timestamp = now (if breach then Suc (ticks s) else ticks s),
               error_ratio = er, warn_ratio = wr,
               result_last_error = le,
               alert_count = length (alerts st) + (if breach then 1 else 0)\<rparr>]"
    and "alert_queue (final R) = alert_queue s @ (if breach then [a] else [])"
    and "device_status (final R) d =
           Some (st\<lparr>last_error := le, alerts := alerts st @ (if breach then [a] else [])\<rparr>)"
    and "alert_windows (final R) d =
           Some (if breach then deque_clear (deque_append w er) else deque_append w er)"
proof -
  have "\<not> isl R
    \<and> analysis_queue (final R) = analysis_queue s @
             [\<lparr>result_device_id = d,
               result_timestamp = now (if breach then Suc (ticks s) else ticks s),
               error_ratio = er, warn_ratio = wr,
               result_last_error = le,
               alert_count = length (alerts st) + (if breach then 1 else 0)\<rparr>]
    \<and> alert_queue (final R) = alert_queue s @ (if breach then [a] else [])
    \<and> device_status (final R) d =
           Some (st\<lparr>last_error := le, alerts := alerts st @ (if breach then [a] else [])\<rparr>)
    \<and> alert_windows (final R) d =
           Some (if breach then deque_clear (deque_append w er) else deque_append w er)"
  proof (cases breach)
    case True
    then have len: "int (length (items (deque_append w er))) = alert_window cfg"
      and avg: "alert_threshold cfg < sum_list (items (deque_append w er)) / of_int (alert_window cfg)"
      by (simp_all add: breach_def)
    note eq = analyze_device_fire [OF lc ne ds aw S len [unfolded er_def errs_def]
        avg [unfolded er_def errs_def], of now]
    show ?thesis
      unfolding R_def eq using True
      by (simp add: final_def a_def er_def errs_def wr_def le_def)
  next
    case False
    note eq = analyze_device_quiet [OF lc ne ds aw S False [unfolded breach_def er_def errs_def],
        of now]
    show ?thesis
      unfolding R_def eq using False
      by (simp add: final_def a_def er_def errs_def wr_def le_def)
  qed
  then show "\<not> isl R"
    and "analysis_queue (final R) = analysis_queue s @
             [\<lparr>result_device_id = d,
               result_timestamp = now (if breach then Suc (ticks s) else ticks s),
               error_ratio = er, warn_ratio = wr,
               result_last_error = le,
               alert_count = length (alerts st) + (if breach then 1 else 0)\<rparr>]"
    and "alert_queue (final R) = alert_queue s @ (if breach then [a] else [])"
    and "device_status (final R) d =
           Some (st\<lparr>last_error := le, alerts := alerts st @ (if breach then [a] else [])\<rparr>)"
    and "alert_windows (final R) d =
           Some (if breach then deque_clear (deque_append w er) else deque_append w er)"
    by simp_all
qed

lemmas run_defs = main_def LogAnalyzer_init_def CONFIG_def deque_new_def process_logs_step_def
  deque_append_def deque_clear_def Let_def final_def start_step_def analyze_logs_def analyze_device_def
  update_last_error_def check_alert_def publish_result_def generate_log_def fixed_clock_def

section \<open>Alerts over a schedule\<close>


lemma analyze_device_other:
  assumes "d' \<noteq> d"
  shows "alert_windows (final (analyze_device cfg now d' s)) d = alert_windows s d
       \<and> filter (\<lambda>a. alert_device_id a = d) (alert_queue (final (analyze_device cfg now d' s)))
           = filter (\<lambda>a. alert_device_id a = d) (alert_queue s)"
  using analyze_device_effect [of cfg now d' s] assms by auto




lemma process_logs_step_frame:
  "alert_windows (snd (process_logs_step s)) = alert_windows s
   \<and> alert_queue (snd (process_logs_step s)) = alert_queue s
   \<and> analysis_queue (snd (process_logs_step s)) = analysis_queue s
   \<and> device_status (snd (process_logs_step s)) = device_status s"
  by (simp add: process_logs_step_def Let_def split: list.splits option.splits)



lemma breach_state_facts:
  "logs_cache breach_state ''device1'' = Some \<lparr>maxlen = 20, items = [error_log]\<rparr>"
  "device_status breach_state ''device1'' = Some \<lparr>last_error = Some error_log, alerts = []\<rparr>"
  "alert_windows breach_state ''device1'' = Some \<lparr>maxlen = 10, items = [1, 1, 1, 1, 1, 1, 1, 1, 1]\<rparr>"
  "alert_queue breach_state = []"
  "ticks breach_state = 9"
  by (simp_all add: breach_state_def nine_cycles_def error_log_def run_defs)

lemma la_analyze_device_last_error:
  assumes "items q \<noteq> []"
  shows "map la_last_error (la_analysis_queue (la_analyze_device now d q t))
     = map la_last_error (la_analysis_queue t) @ [find (\<lambda>l. log_level l = ERROR) (rev (items q))]"
  using assms by (simp add: la_analyze_device_def Let_def)

lemma la_iteration_single:
  "la_iteration now (t\<lparr>device_logs := [(d, q)], la_log_queue := []\<rparr>)
     = la_analyze_device now d q (t\<lparr>device_logs := [(d, q)], la_log_queue := []\<rparr>)"
  by (simp add: la_iteration_def la_ingest_def)

section \<open>Startup and ingestion\<close>

lemma deque_dict_neg:
  "n < 0 \<Longrightarrow> ds \<noteq> [] \<Longrightarrow>
     (deque_dict n ds :: error + (string \<rightharpoonup> 'a deque))
       = Inl (ValueError ''maxlen must be non-negative'')"
  by (cases ds) (simp_all add: deque_new_def)

lemma deque_dict_ok:
  "0 \<le> n \<or> ds = [] \<Longrightarrow>
     deque_dict n ds = Inr (map_of (map (\<lambda>d. (d, \<lparr>maxlen = nat n, items = []\<rparr>)) ds))"
  by (induction ds) (auto simp: deque_new_def)

lemma LogAnalyzer_init_eq:
  "LogAnalyzer_init cfg =
     (if device_ids cfg \<noteq> [] \<and> (analysis_window cfg < 0 \<or> alert_window cfg < 0)
      then Inl (ValueError ''maxlen must be non-negative'')
      else Inr \<lparr>logs_cache =
                  map_of (map (\<lambda>d. (d, \<lparr>maxlen = nat (analysis_window cfg), items = []\<rparr>))
                    (device_ids cfg)),
                device_status =
                  map_of (map (\<lambda>d. (d, \<lparr>last_error = None, alerts = []\<rparr>)) (device_ids cfg)),
                alert_windows =
                  map_of (map (\<lambda>d. (d, \<lparr>maxlen = nat (alert_window cfg), items = []\<rparr>))
                    (device_ids cfg)),
                log_queue = [], analysis_queue = [], alert_queue = [], ticks = 0\<rparr>)"
proof (cases "device_ids cfg = []")
  case True
  then show ?thesis by (simp add: LogAnalyzer_init_def)
next
  case ne: False
  show ?thesis
  proof (cases "analysis_window cfg < 0")
    case True
    with ne show ?thesis by (simp add: LogAnalyzer_init_def deque_dict_neg)
  next
    case N: False
    show ?thesis
    proof (cases "alert_window cfg < 0")
      case True
      with ne N show ?thesis by (simp add: LogAnalyzer_init_def deque_dict_neg deque_dict_ok)
    next
      case False
      with ne N show ?thesis by (simp add: LogAnalyzer_init_def deque_dict_ok)
    qed
  qed
qed

lemma map_of_const: "d \<in> set ds \<Longrightarrow> map_of (map (\<lambda>d. (d, v)) ds) d = Some v"
  by (induction ds) auto

lemma dict_set_new: "map_of ps k = None \<Longrightarrow> dict_set k v ps = ps @ [(k, v)]"
  by (induction ps) (auto split: if_splits)

lemma process_logs_drains: "log_queue (process_logs (length (log_queue s)) s) = []"
proof (induction "log_queue s" arbitrary: s)
  case Nil
  then show ?case by simp
next
  case (Cons l rest)
  from Cons(2) [symmetric] have q: "log_queue (snd (process_logs_step s)) = rest"
    by (simp add: process_logs_step_def Let_def split: option.splits)
  from Cons(1) [of "snd (process_logs_step s)"] q Cons(2) [symmetric]
  show ?case by simp
qed

section \<open>A device without ERROR logs\<close>

lemma deque_append_set: "set (items (deque_append w x)) \<subseteq> insert x (set (items w))"
proof -
  have "set (tl ys) \<subseteq> set ys" for ys :: "'a list"
    by (cases ys) auto
  from this [of "items w @ [x]"] show ?thesis
    by (auto simp: items_deque_append split: if_splits)
qed

lemma sum_list_zeros: "\<forall>x \<in> set xs. x = (0 :: rat) \<Longrightarrow> sum_list xs = 0"
  by (induction xs) simp_all

lemma analyze_device_quiet_device:
  assumes thr: "0 \<le> alert_threshold cfg"
    and hist: "no_error_in_history d s"
    and zero: "zero_window d s"
  shows "zero_window d (final (analyze_device cfg now d' s))
       \<and> filter (\<lambda>a. alert_device_id a = d) (alert_queue (final (analyze_device cfg now d' s)))
           = filter (\<lambda>a. alert_device_id a = d) (alert_queue s)
       \<and> logs_cache (final (analyze_device cfg now d' s)) = logs_cache s"
proof (cases "d' = d")
  case False
  with analyze_device_other [OF False, of cfg now s] analyze_device_effect [of cfg now d' s] zero
  show ?thesis by (simp add: zero_window_def)
next
  case True
  let ?R = "analyze_device cfg now d s"
  have lc: "logs_cache (final ?R) = logs_cache s"
    using analyze_device_effect [of cfg now d s] by simp
  have er: "(of_nat (length (filter (\<lambda>l. log_level l = ERROR) (items c)))
              / of_nat (length (items c)) :: rat) = 0"
    if "logs_cache s d = Some c" for c
  proof -
    from hist that have "\<forall>l \<in> set (items c). log_level l \<noteq> ERROR"
      by (simp add: no_error_in_history_def list_all_iff)
    then have "filter (\<lambda>l. log_level l = ERROR) (items c) = []" by simp
    then show ?thesis by simp
  qed
  have zeros: "\<forall>x \<in> set (items (deque_append w 0)). x = 0"
    if "alert_windows s d = Some w" for w
  proof -
    from zero that have "\<forall>x \<in> set (items w). x = 0"
      by (simp add: zero_window_def list_all_iff)
    with deque_append_set [of w 0] show ?thesis by blast
  qed
  from analyze_device_effect [of cfg now d s]
  consider (same) "alert_windows (final ?R) d = alert_windows s d"
      "alert_queue (final ?R) = alert_queue s"
    | (grown) c w where "logs_cache s d = Some c" "alert_windows s d = Some w"
      "alert_windows (final ?R) d = Some (deque_append w
          (of_nat (length (filter (\<lambda>l. log_level l = ERROR) (items c))) / of_nat (length (items c))))"
      "alert_queue (final ?R) = alert_queue s"
    | (fired) c w where "logs_cache s d = Some c" "alert_windows s d = Some w"
      "alert_threshold cfg < sum_list (items (deque_append w
          (of_nat (length (filter (\<lambda>l. log_level l = ERROR) (items c))) / of_nat (length (items c)))))
            / of_int (alert_window cfg)"
    by blast
  then show ?thesis
  proof cases
    case same
    with zero lc True show ?thesis by (simp add: zero_window_def)
  next
    case grown
    from grown(3) er [OF grown(1)]
    have "alert_windows (final ?R) d = Some (deque_append w 0)" by simp
    with zeros [OF grown(2)] grown(4) lc True show ?thesis
      by (simp add: zero_window_def list_all_iff)
  next
    case fired
    from fired(3) er [OF fired(1)]
    have "alert_threshold cfg < sum_list (items (deque_append w 0)) / of_int (alert_window cfg)"
      by simp
    with sum_list_zeros [OF zeros [OF fired(2)]] thr show ?thesis by simp
  qed
qed

lemma analyze_loop_quiet_device:
  assumes thr: "0 \<le> alert_threshold cfg"
    and hist: "no_error_in_history d s"
    and zero: "zero_window d s"
  shows "zero_window d (final (analyze_loop cfg now ds s))
       \<and> filter (\<lambda>a. alert_device_id a = d) (alert_queue (final (analyze_loop cfg now ds s)))
           = filter (\<lambda>a. alert_device_id a = d) (alert_queue s)"
  using hist zero
proof (induction ds arbitrary: s)
  case Nil
  then show ?case by (simp add: final_def)
next
  case (Cons d' ds)
  note step = analyze_device_quiet_device [OF thr Cons.prems, of now d']
  show ?case
  proof (cases "analyze_device cfg now d' s" rule: final_cases)
    case (Inl e s1)
    then have "final (analyze_loop cfg now (d' # ds) s) = s1" by (simp add: final_def)
    with step Inl(2) show ?thesis by simp
  next
    case (Inr s1)
    then have fin: "final (analyze_loop cfg now (d' # ds) s) = final (analyze_loop cfg now ds s1)"
      by simp
    from step Inr(2) Cons.prems(1) have h1: "no_error_in_history d s1" and z1: "zero_window d s1"
      by (simp_all add: no_error_in_history_def)
    from Cons.IH [OF h1 z1] step Inr(2) show ?thesis unfolding fin by simp
  qed
qed

lemma start_step_quiet_device:
  assumes thr: "0 \<le> alert_threshold cfg"
    and hist: "no_error_in_history d s"
    and zero: "zero_window d s"
  shows "zero_window d (final (start_step cfg now s))
       \<and> filter (\<lambda>a. alert_device_id a = d) (alert_queue (final (start_step cfg now s)))
           = filter (\<lambda>a. alert_device_id a = d) (alert_queue s)"
proof (cases "analysis_interval cfg < 0")
  case True
  then have "final (start_step cfg now s) = s" by (simp add: start_step_def final_def)
  with zero show ?thesis by simp
next
  case False
  then have "start_step cfg now s = analyze_loop cfg now (device_ids cfg) s"
    by (simp add: start_step_def analyze_logs_def)
  with analyze_loop_quiet_device [OF assms, of now "device_ids cfg"] show ?thesis by simp
qed

lemma run_quiet_device:
  assumes thr: "0 \<le> alert_threshold cfg"
    and hist: "list_all (\<lambda>p. no_error_in_history d (final (run cfg now p s))) (prefixes evs)"
    and zero: "zero_window d s"
  shows "zero_window d (final (run cfg now evs s))
       \<and> filter (\<lambda>a. alert_device_id a = d) (alert_queue (final (run cfg now evs s)))
           = filter (\<lambda>a. alert_device_id a = d) (alert_queue s)"
  using hist zero
proof (induction evs arbitrary: s)
  case Nil
  then show ?case by (simp add: final_def)
next
  case (Cons ev evs)
  from Cons.prems(1) have h0: "no_error_in_history d s"
    and hs: "list_all (\<lambda>p. no_error_in_history d (final (run cfg now (ev # p) s))) (prefixes evs)"
    by (simp_all add: final_def list_all_iff)
  show ?case
  proof (cases ev)
    case (Put l)
    let ?s1 = "s\<lparr>log_queue := log_queue s @ [l]\<rparr>"
    from hs Put have "list_all (\<lambda>p. no_error_in_history d (final (run cfg now p ?s1))) (prefixes evs)"
      by simp
    moreover from Cons.prems(2) have "zero_window d ?s1" by (simp add: zero_window_def)
    ultimately show ?thesis using Cons.IH [of ?s1] Put by simp
  next
    case Process
    let ?s1 = "snd (process_logs_step s)"
    from hs Process
    have "list_all (\<lambda>p. no_error_in_history d (final (run cfg now p ?s1))) (prefixes evs)"
      by simp
    moreover from Cons.prems(2) process_logs_step_frame [of s] have "zero_window d ?s1"
      by (simp add: zero_window_def)
    ultimately show ?thesis using Cons.IH [of ?s1] Process process_logs_step_frame [of s] by simp
  next
    case Analyze
    note st = start_step_quiet_device [OF thr h0 Cons.prems(2), of now]
    show ?thesis
    proof (cases "start_step cfg now s" rule: final_cases)
      case (Inl e s1)
      then have "final (run cfg now (ev # evs) s) = s1" using Analyze by (simp add: final_def)
      with st Inl(2) show ?thesis by simp
    next
      case (Inr s1)
      then have fin: "final (run cfg now (ev # evs) s) = final (run cfg now evs s1)"
        using Analyze by simp
      from hs Analyze Inr(1)
      have "list_all (\<lambda>p. no_error_in_history d (final (run cfg now p s1))) (prefixes evs)"
        by simp
      moreover from st Inr(2) have "zero_window d s1" by simp
      ultimately show ?thesis using Cons.IH [of s1] st Inr(2) unfolding fin by simp
    qed
  qed
qed

section \<open>Two runs with different clocks\<close>

lemma erase_status_eq:
  "erase_status a = erase_status b \<longleftrightarrow>
     last_error a = last_error b \<and> map erase_alert (alerts a) = map erase_alert (alerts b)"
  by (cases a, cases b) (simp add: erase_status_def)

lemma same_but_time_status:
  assumes "same_but_time s t"
  shows "(device_status s d = None \<and> device_status t d = None)
       \<or> (\<exists>a b. device_status s d = Some a \<and> device_status t d = Some b
              \<and> last_error a = last_error b
              \<and> map erase_alert (alerts a) = map erase_alert (alerts b))"
proof -
  from assms have "map_option erase_status (device_status s d)
              = map_option erase_status (device_status t d)"
    by (simp add: same_but_time_def)
  then show ?thesis
    by (cases "device_status s d"; cases "device_status t d") (simp_all add: erase_status_eq)
qed

lemma update_last_error_sim:
  assumes "same_but_time s t"
  shows "isl (update_last_error d errs s) = isl (update_last_error d errs t)
       \<and> same_but_time (final (update_last_error d errs s)) (final (update_last_error d errs t))"
  using same_but_time_status [OF assms, of d] assms
  by (auto simp: update_last_error_def final_def same_but_time_def erase_status_eq)

lemma publish_result_sim:
  assumes "same_but_time s t"
  shows "isl (publish_result now1 d er wr s) = isl (publish_result now2 d er wr t)
       \<and> same_but_time (final (publish_result now1 d er wr s))
            (final (publish_result now2 d er wr t))"
  using same_but_time_status [OF assms, of d] assms
  by (auto simp: publish_result_def final_def same_but_time_def erase_result_def Let_def
      dest: map_eq_imp_length_eq)

lemma check_alert_sim:
  assumes "same_but_time s t"
  shows "isl (check_alert cfg now1 d r s) = isl (check_alert cfg now2 d r t)
       \<and> same_but_time (final (check_alert cfg now1 d r s)) (final (check_alert cfg now2 d r t))"
  using same_but_time_status [OF assms, of d] assms
  by (auto simp: check_alert_def final_def same_but_time_def erase_alert_def erase_status_eq
      Let_def split: option.splits)

lemma analyze_device_sim:
  assumes sim: "same_but_time s t"
  shows "isl (analyze_device cfg now1 d s) = isl (analyze_device cfg now2 d t)
       \<and> same_but_time (final (analyze_device cfg now1 d s)) (final (analyze_device cfg now2 d t))"
proof -
  from sim have lc: "logs_cache t = logs_cache s" by (simp add: same_but_time_def)
  show ?thesis
  proof (cases "logs_cache s d")
    case None
    with lc sim show ?thesis by (simp add: analyze_device_def final_def)
  next
    case (Some c)
    show ?thesis
    proof (cases "items c = []")
      case True
      with Some lc sim show ?thesis by (simp add: analyze_device_def final_def)
    next
      case False
      define errs where "errs = filter (\<lambda>l. log_level l = ERROR) (items c)"
      define er :: rat where "er = of_nat (length errs) / of_nat (length (items c))"
      define wr :: rat where "wr = of_nat (length (filter (\<lambda>l. log_level l = WARN) (items c)))
                    / of_nat (length (items c))"
      have R: "analyze_device cfg now d u = (case update_last_error d errs u of Inl e \<Rightarrow> Inl e
         | Inr s1 \<Rightarrow> (case check_alert cfg now d er s1 of Inl e \<Rightarrow> Inl e
                      | Inr s2 \<Rightarrow> publish_result now d er wr s2))"
        if "logs_cache u = logs_cache s" for u and now :: "nat \<Rightarrow> string"
        unfolding analyze_device_def errs_def er_def wr_def using Some False that
        by (simp add: Let_def)
      note Rs = R [of s now1, OF refl] and Rt = R [of t now2, OF lc]
      note u = update_last_error_sim [OF sim, of d errs]
      show ?thesis
      proof (cases "update_last_error d errs s" rule: final_cases)
        case sl: (Inl e s1)
        show ?thesis
        proof (cases "update_last_error d errs t" rule: final_cases)
          case (Inl e' t1)
          with sl u show ?thesis by (simp add: Rs Rt final_def)
        next
          case (Inr t1)
          with sl u show ?thesis by simp
        qed
      next
        case sr: (Inr s1)
        show ?thesis
        proof (cases "update_last_error d errs t" rule: final_cases)
          case (Inl e' t1)
          with sr u show ?thesis by simp
        next
          case tr: (Inr t1)
          from u sr(2) tr(2) have sim1: "same_but_time s1 t1" by simp
          note c = check_alert_sim [OF sim1, of cfg now1 d er now2]
          show ?thesis
          proof (cases "check_alert cfg now1 d er s1" rule: final_cases)
            case cl: (Inl e s2)
            show ?thesis
            proof (cases "check_alert cfg now2 d er t1" rule: final_cases)
              case (Inl e' t2)
              with cl c sr(1) tr(1) show ?thesis by (simp add: Rs Rt final_def)
            next
              case (Inr t2)
              with cl c show ?thesis by simp
            qed
          next
            case cr: (Inr s2)
            show ?thesis
            proof (cases "check_alert cfg now2 d er t1" rule: final_cases)
              case (Inl e' t2)
              with cr c show ?thesis by simp
            next
              case ctr: (Inr t2)
              from c cr(2) ctr(2) have sim2: "same_but_time s2 t2" by simp
              from publish_result_sim [OF sim2, of now1 d er wr now2] sr(1) tr(1) cr(1) ctr(1)
              show ?thesis by (simp add: Rs Rt)
            qed
          qed
        qed
      qed
    qed
  qed
qed

lemma analyze_loop_sim:
  "same_but_time s t \<Longrightarrow>
     isl (analyze_loop cfg now1 ds s) = isl (analyze_loop cfg now2 ds t)
       \<and> same_but_time (final (analyze_loop cfg now1 ds s)) (final (analyze_loop cfg now2 ds t))"
proof (induction ds arbitrary: s t)
  case Nil
  then show ?case by (simp add: final_def)
next
  case (Cons d ds)
  note a = analyze_device_sim [OF Cons.prems, of cfg now1 d now2]
  show ?case
  proof (cases "analyze_device cfg now1 d s" rule: final_cases)
    case sl: (Inl e s1)
    show ?thesis
    proof (cases "analyze_device cfg now2 d t" rule: final_cases)
      case (Inl e' t1)
      with sl a show ?thesis by (simp add: final_def)
    next
      case (Inr t1)
      with sl a show ?thesis by simp
    qed
  next
    case sr: (Inr s1)
    show ?thesis
    proof (cases "analyze_device cfg now2 d t" rule: final_cases)
      case (Inl e' t1)
      with sr a show ?thesis by simp
    next
      case tr: (Inr t1)
      from a sr(2) tr(2) have "same_but_time s1 t1" by simp
      from Cons.IH [OF this] sr(1) tr(1) show ?thesis by simp
    qed
  qed
qed

lemma start_step_sim:
  assumes "same_but_time s t"
  shows "isl (start_step cfg now1 s) = isl (start_step cfg now2 t)
       \<and> same_but_time (final (start_step cfg now1 s)) (final (start_step cfg now2 t))"
  using analyze_loop_sim [OF assms, of cfg now1 "device_ids cfg" now2] assms
  by (simp add: start_step_def analyze_logs_def final_def)

lemma process_logs_step_sim:
  assumes "same_but_time s t"
  shows "same_but_time (snd (process_logs_step s)) (snd (process_logs_step t))"
  using assms
  by (auto simp: process_logs_step_def same_but_time_def Let_def split: list.splits option.splits)

lemma run_sim:
  "same_but_time s t \<Longrightarrow>
     isl (run cfg now1 evs s) = isl (run cfg now2 evs t)
       \<and> same_but_time (final (run cfg now1 evs s)) (final (run cfg now2 evs t))"
proof (induction evs arbitrary: s t)
  case Nil
  then show ?case by (simp add: final_def)
next
  case (Cons ev evs)
  show ?case
  proof (cases ev)
    case (Put l)
    from Cons.prems
    have "same_but_time (s\<lparr>log_queue := log_queue s @ [l]\<rparr>) (t\<lparr>log_queue := log_queue t @ [l]\<rparr>)"
      by (simp add: same_but_time_def)
    from Cons.IH [OF this] Put show ?thesis by simp
  next
    case Process
    from Cons.IH [OF process_logs_step_sim [OF Cons.prems]] Process show ?thesis by simp
  next
    case Analyze
    note a = start_step_sim [OF Cons.prems, of cfg now1 now2]
    show ?thesis
    proof (cases "start_step cfg now1 s" rule: final_cases)
      case sl: (Inl e s1)
      show ?thesis
      proof (cases "start_step cfg now2 t" rule: final_cases)
        case (Inl e' t1)
        with sl a Analyze show ?thesis by (simp add: final_def)
      next
        case (Inr t1)
        with sl a show ?thesis by simp
      qed
    next
      case sr: (Inr s1)
      show ?thesis
      proof (cases "start_step cfg now2 t" rule: final_cases)
        case (Inl e' t1)
        with sr a show ?thesis by simp
      next
        case tr: (Inr t1)
        from a sr(2) tr(2) have "same_but_time s1 t1" by simp
        from Cons.IH [OF this] sr(1) tr(1) Analyze show ?thesis by simp
      qed
    qed
  qed
qed

lemma same_but_time_refl: "same_but_time s s"
  by (simp add: same_but_time_def)

section \<open>Claims\<close>







text \<open>
  C7. The specification has the result published before the sample is pushed into the
  alert window,
  so that an alert of this cycle would not show in this cycle's \<open>alert_count\<close>.
  \<open>analyze_logs\<close> does it the other way round (lines 106-121 run before lines
  123-133). With the default \<open>CONFIG\<close>, one ERROR log of \<open>device1\<close> and ten cycles: after
  nine cycles no alert has been raised, the tenth raises the alert of \<open>device1\<close>, and the
  result published by that tenth cycle already carries \<open>alert_count = 1\<close>.
\<close>

theorem alert_count_counterexample:
  "alert_queue (final (main CONFIG (fixed_clock ''2025-01-01 00:00:00'') nine_cycles)) = []
   \<and> map alert_device_id (alert_queue (final
         (main CONFIG (fixed_clock ''2025-01-01 00:00:00'') (nine_cycles @ [Analyze]))))
       = [''device1'']
   \<and> map alert_count (analysis_queue (final
         (main CONFIG (fixed_clock ''2025-01-01 00:00:00'') (nine_cycles @ [Analyze]))))
       = [0, 0, 0, 0, 0, 0, 0, 0, 0, 1]"
  by (simp add: nine_cycles_def error_log_def run_defs)

text \<open>
  C7, as the code has it. In a cycle for a device with a non-empty snapshot the sample is
  appended to the alert window and the alert, if any, is raised before the result is
  built: the published \<open>alert_count\<close> is the number of alerts of the device after the
  cycle, so it includes an alert raised in this very cycle, and the clock is read for the
  alert before it is read for the result.
\<close>

theorem alert_count_includes_this_cycle:
  fixes now :: "nat \<Rightarrow> string" and cfg :: config
  assumes lc: "logs_cache s d = Some c" and ne: "items c \<noteq> []"
    and ds: "device_status s d = Some st"
    and aw: "alert_windows s d = Some w"
    and S: "alert_window cfg \<noteq> 0"
  defines "er \<equiv> (of_nat (length (filter (\<lambda>l. log_level l = ERROR) (items c)))
                    / of_nat (length (items c)) :: rat)"
  defines "breach \<equiv> int (length (items (deque_append w er))) = alert_window cfg
            \<and> alert_threshold cfg < sum_list (items (deque_append w er)) / of_int (alert_window cfg)"
  defines "R \<equiv> analyze_device cfg now d s"
  defines "res \<equiv> last (analysis_queue (final R))"
  shows "\<not> isl R
    \<and> analysis_queue (final R) = analysis_queue s @ [res]
    \<and> map_option (\<lambda>st'. length (alerts st')) (device_status (final R) d) = Some (alert_count res)
    \<and> alert_count res = length (alerts st) + (length (alert_queue (final R)) - length (alert_queue s))
    \<and> (breach \<longrightarrow> alert_count res = Suc (length (alerts st))
          \<and> length (alert_queue (final R)) = Suc (length (alert_queue s))
          \<and> alert_timestamp (last (alert_queue (final R))) = now (ticks s)
          \<and> result_timestamp res = now (Suc (ticks s)))
    \<and> (\<not> breach \<longrightarrow> alert_count res = length (alerts st)
          \<and> alert_queue (final R) = alert_queue s
          \<and> result_timestamp res = now (ticks s))"
proof -
  note pub = analyze_device_publishes [OF lc ne ds aw S, of now,
      folded er_def, folded breach_def, folded R_def]
  have q: "analysis_queue (final R) = analysis_queue s @ [res]"
    unfolding res_def by (simp add: pub(2))
  have cnt: "alert_count res = length (alerts st) + (if breach then 1 else 0)"
    and ts: "result_timestamp res = now (if breach then Suc (ticks s) else ticks s)"
    unfolding res_def by (simp_all add: pub(2))
  show ?thesis
  proof (cases breach)
    case True
    with pub(1) q cnt ts pub(3) pub(4) show ?thesis by simp
  next
    case False
    with pub(1) q cnt ts pub(3) pub(4) show ?thesis by simp
  qed
qed

theorem alert_count_includes_this_cycle_witness:
  "logs_cache breach_state ''device1'' = Some \<lparr>maxlen = 20, items = [error_log]\<rparr>
   \<and> device_status breach_state ''device1'' = Some \<lparr>last_error = Some error_log, alerts = []\<rparr>
   \<and> alert_windows breach_state ''device1''
         = Some \<lparr>maxlen = 10, items = [1, 1, 1, 1, 1, 1, 1, 1, 1]\<rparr>
   \<and> alert_window CONFIG \<noteq> 0
   \<and> alert_count (last (analysis_queue (final
         (analyze_device CONFIG (fixed_clock ''2025-01-01 00:00:50'') ''device1'' breach_state)))) = 1
   \<and> length (alert_queue (final
         (analyze_device CONFIG (fixed_clock ''2025-01-01 00:00:50'') ''device1'' breach_state))) = 1"
proof -
  let ?clk = "fixed_clock ''2025-01-01 00:00:50''"
  let ?w = "\<lparr>maxlen = 10, items = [1, 1, 1, 1, 1, 1, 1, 1, 1 :: rat]\<rparr>"
  note f = breach_state_facts
  have ne: "items \<lparr>maxlen = 20, items = [error_log]\<rparr> \<noteq> []" by simp
  have S: "alert_window CONFIG \<noteq> 0" by (simp add: CONFIG_def)
  have er: "(of_nat (length (filter (\<lambda>l. log_level l = ERROR)
                (items \<lparr>maxlen = 20, items = [error_log]\<rparr>)))
              / of_nat (length (items \<lparr>maxlen = 20, items = [error_log]\<rparr>)) :: rat) = 1"
    by (simp add: error_log_def generate_log_def)
  have w1: "items (deque_append ?w 1) = [1, 1, 1, 1, 1, 1, 1, 1, 1, 1]"
    by (simp add: deque_append_def)
  have breach: "int (length (items (deque_append ?w 1))) = alert_window CONFIG
     \<and> alert_threshold CONFIG
          < sum_list (items (deque_append ?w 1)) / of_int (alert_window CONFIG)"
    unfolding w1 by (simp add: CONFIG_def)
  note th = alert_count_includes_this_cycle [OF f(1) ne f(2) f(3) S, of ?clk, unfolded er]
  note fired = th [THEN conjunct2, THEN conjunct2, THEN conjunct2, THEN conjunct2,
      THEN conjunct1, rule_format, OF breach]
  from fired f(1,2,3,4) S show ?thesis by simp
qed

text \<open>
  C4. The specification has \<open>last_error\<close> unchanged when the snapshot holds no ERROR
  entry.
  \<open>log_analyzer\<close> (\<open>log_analyzer.py\<close>, line 36) keeps no stored value: it publishes
  \<open>None\<close> then. In a state whose history is full with one ERROR log as its oldest entry,
  a cycle publishes that ERROR log; the next cycle takes one INFO log from the queue,
  which evicts the ERROR log, and publishes \<open>None\<close>.
\<close>

theorem last_error_reset_counterexample:
  "map la_last_error (la_analysis_queue
      (la_iteration (fixed_clock ''2025-01-01 00:00:00'') (full_state\<lparr>la_log_queue := []\<rparr>)))
     = [Some error_log]
   \<and> map la_last_error (la_analysis_queue
      (la_iteration (fixed_clock ''2025-01-01 00:00:00'') full_state)) = [None]"
proof -
  let ?clk = "fixed_clock ''2025-01-01 00:00:00''"
  let ?h = "\<lparr>maxlen = 100, items = error_log # replicate 99 info_log\<rparr>"
  let ?h' = "\<lparr>maxlen = 100, items = replicate 99 info_log @ [info_log]\<rparr>"
  have lv: "log_level error_log = ERROR" "log_level info_log = INFO"
    "device_id info_log = ''device1''"
    by (simp_all add: error_log_def info_log_def generate_log_def)
  have 1: "la_iteration ?clk (full_state\<lparr>la_log_queue := []\<rparr>)
      = la_analyze_device ?clk ''device1'' ?h (full_state\<lparr>la_log_queue := []\<rparr>)"
    by (simp add: la_iteration_def la_ingest_def full_state_def)
  have f1: "find (\<lambda>l. log_level l = ERROR) (rev (items ?h)) = Some error_log"
    by (subst find_rev_last_filter) (simp add: lv)
  have app: "deque_append ?h info_log = ?h'"
    by (simp add: deque_append_def)
  have 2: "la_iteration ?clk full_state
      = la_analyze_device ?clk ''device1'' ?h'
          (full_state\<lparr>la_log_queue := [], device_logs := [(''device1'', ?h')]\<rparr>)"
    by (simp add: la_iteration_def la_ingest_def full_state_def lv app Let_def)
  have f2: "find (\<lambda>l. log_level l = ERROR) (rev (items ?h')) = None"
    by (subst find_rev_last_filter) (simp add: lv)
  have ne1: "items ?h \<noteq> []" and ne2: "items ?h' \<noteq> []" by simp_all
  note r1 = la_analyze_device_last_error [OF ne1, of ?clk "''device1''"
      "full_state\<lparr>la_log_queue := []\<rparr>", unfolded f1]
  note r2 = la_analyze_device_last_error [OF ne2, of ?clk "''device1''"
      "full_state\<lparr>la_log_queue := [], device_logs := [(''device1'', ?h')]\<rparr>", unfolded f2]
  show ?thesis
    unfolding 1 2 r1 r2 by (simp add: full_state_def)
qed

text \<open>
  C4, as the code has it. \<open>LogAnalyzer.analyze_logs\<close> publishes and stores, for a device
  with a non-empty snapshot, the newest ERROR entry of the snapshot (the first one found
  from the newest to the oldest) and, when there is none, the value stored before.
  \<open>log_analyzer\<close> publishes the newest ERROR entry of the snapshot, and \<open>None\<close> when
  there is none.
\<close>

theorem last_error_published:
  fixes now now' :: "nat \<Rightarrow> string" and cfg :: config
  assumes lc: "logs_cache s d = Some c" and ne: "items c \<noteq> []"
    and ds: "device_status s d = Some st"
    and aw: "alert_windows s d = Some w"
    and S: "alert_window cfg \<noteq> 0"
    and la: "items q \<noteq> []"
  shows "map result_last_error (analysis_queue (final (analyze_device cfg now d s)))
       = map result_last_error (analysis_queue s)
           @ [case find (\<lambda>l. log_level l = ERROR) (rev (items c)) of
                None \<Rightarrow> last_error st
              | Some e \<Rightarrow> Some e]
    \<and> map_option last_error (device_status (final (analyze_device cfg now d s)) d)
       = Some (case find (\<lambda>l. log_level l = ERROR) (rev (items c)) of
                None \<Rightarrow> last_error st
              | Some e \<Rightarrow> Some e)
    \<and> map la_last_error (la_analysis_queue (la_analyze_device now' d' q t))
       = map la_last_error (la_analysis_queue t)
           @ [find (\<lambda>l. log_level l = ERROR) (rev (items q))]"
proof -
  let ?errs = "filter (\<lambda>l. log_level l = ERROR) (items c)"
  have fnd: "(case find (\<lambda>l. log_level l = ERROR) (rev (items c)) of
                None \<Rightarrow> last_error st
              | Some e \<Rightarrow> Some e)
           = (if ?errs = [] then last_error st else Some (last ?errs))"
    by (subst find_rev_last_filter) simp
  note pub = analyze_device_publishes [OF lc ne ds aw S, of now]
  have 1: "map result_last_error (analysis_queue (final (analyze_device cfg now d s)))
       = map result_last_error (analysis_queue s)
           @ [if ?errs = [] then last_error st else Some (last ?errs)]"
    by (simp add: pub(2))
  have 2: "map_option last_error (device_status (final (analyze_device cfg now d s)) d)
       = Some (if ?errs = [] then last_error st else Some (last ?errs))"
    by (simp add: pub(4))
  from 1 2 la_analyze_device_last_error [OF la, of now' d' t] show ?thesis
    unfolding fnd by blast
qed

theorem last_error_published_witness:
  "logs_cache sample_state ''device1'' = Some \<lparr>maxlen = 20, items = sample_logs\<rparr>
   \<and> device_status sample_state ''device1'' = Some \<lparr>last_error = None, alerts = []\<rparr>
   \<and> alert_windows sample_state ''device1'' = Some \<lparr>maxlen = 10, items = []\<rparr>
   \<and> alert_window CONFIG \<noteq> 0
   \<and> sample_logs \<noteq> []
   \<and> map result_last_error (analysis_queue (final
        (analyze_device CONFIG (fixed_clock ''2025-01-01 00:00:05'') ''device1'' sample_state)))
       = [Some (generate_log ''device1'' ''2025-01-01 00:00:02'' ERROR ''crashed'')]
   \<and> map la_last_error (la_analysis_queue
        (la_analyze_device (fixed_clock ''2025-01-01 00:00:05'') ''device1''
           \<lparr>maxlen = 100, items = sample_logs\<rparr> full_state))
       = [Some (generate_log ''device1'' ''2025-01-01 00:00:02'' ERROR ''crashed'')]"
proof -
  have lc: "logs_cache sample_state ''device1'' = Some \<lparr>maxlen = 20, items = sample_logs\<rparr>"
    and ds: "device_status sample_state ''device1'' = Some \<lparr>last_error = None, alerts = []\<rparr>"
    and aw: "alert_windows sample_state ''device1'' = Some \<lparr>maxlen = 10, items = []\<rparr>"
    and q: "analysis_queue sample_state = []"
    by (simp_all add: sample_state_def sample_logs_def run_defs)
  have ne: "items \<lparr>maxlen = 20, items = sample_logs\<rparr> \<noteq> []"
    and la: "items \<lparr>maxlen = 100, items = sample_logs\<rparr> \<noteq> []"
    and ne': "sample_logs \<noteq> []"
    by (simp_all add: sample_logs_def)
  have S: "alert_window CONFIG \<noteq> 0" by (simp add: CONFIG_def)
  have fnd: "find (\<lambda>l. log_level l = ERROR) (rev sample_logs)
      = Some (generate_log ''device1'' ''2025-01-01 00:00:02'' ERROR ''crashed'')"
    by (simp add: sample_logs_def generate_log_def)
  from last_error_published [OF lc ne ds aw S la, of "fixed_clock ''2025-01-01 00:00:05''"
      "fixed_clock ''2025-01-01 00:00:05''" "''device1''" full_state]
    lc ds aw S ne' q fnd
  show ?thesis by (simp add: full_state_def)
qed

text \<open>
  C3. A pass of the loop of \<open>log_analyzer\<close> (\<open>log_analyzer.py\<close>, lines 13-24) takes at
  most one log from the queue before it sleeps and analyses: with two logs waiting, the
  second is still on the queue after the pass, and the analysis has run on a history of
  one. The loop of \<open>LogAnalyzer.process_logs\<close> keeps taking logs until the queue is
  empty: two passes leave the queue empty and both logs in the history.
\<close>

theorem takes_one_log_per_cycle:
  "la_log_queue (log_analyzer (fixed_clock ''2025-01-01 00:00:00'') 1 [error_log, info_log])
     = [info_log]
   \<and> map fst (device_logs
        (log_analyzer (fixed_clock ''2025-01-01 00:00:00'') 1 [error_log, info_log]))
     = [''device1'']
   \<and> map (\<lambda>p. items (snd p)) (device_logs
        (log_analyzer (fixed_clock ''2025-01-01 00:00:00'') 1 [error_log, info_log]))
     = [[error_log]]
   \<and> length (la_analysis_queue
        (log_analyzer (fixed_clock ''2025-01-01 00:00:00'') 1 [error_log, info_log])) = 1
   \<and> log_queue (process_logs 2 (final (main CONFIG (fixed_clock ''2025-01-01 00:00:00'')
        [Put error_log, Put info_log]))) = []
   \<and> map_option items (logs_cache (process_logs 2 (final
        (main CONFIG (fixed_clock ''2025-01-01 00:00:00'') [Put error_log, Put info_log])))
          ''device1'') = Some [error_log, info_log]"
  by (simp add: log_analyzer_def la_iteration_def la_ingest_def la_analyze_device_def
      la_N_def la_S_def slice_from_def error_log_def info_log_def run_defs numeral_2_eq_2)

text \<open>
  C5. \<open>LogAnalyzer\<close> keeps state for the devices of \<open>CONFIG\<close> only. A log of another
  device is taken from the queue by \<open>process_logs\<close>, no history and no alert window are
  created for it, and it reaches no history: it is dropped.
\<close>

theorem unknown_device_dropped_counterexample:
  "logs_cache (final (main CONFIG (fixed_clock ''2025-01-01 00:00:00'')
       [Put unknown_log, Process])) ''device9'' = None
   \<and> alert_windows (final (main CONFIG (fixed_clock ''2025-01-01 00:00:00'')
       [Put unknown_log, Process])) ''device9'' = None
   \<and> log_queue (final (main CONFIG (fixed_clock ''2025-01-01 00:00:00'')
       [Put unknown_log, Process])) = []
   \<and> map (\<lambda>d. map_option items (logs_cache (final (main CONFIG
       (fixed_clock ''2025-01-01 00:00:00'') [Put unknown_log, Process])) d))
         [''device1'', ''device2'', ''device3''] = [Some [], Some [], Some []]"
  by (simp add: unknown_log_def run_defs)

text \<open>
  C5, as the code has it. Taking a log of a device never seen before, \<open>log_analyzer\<close>
  creates a fresh history of capacity \<open>N = 100\<close> for it, at the end of its dictionary,
  and the history holds the log; \<open>log_analyzer\<close> has no alert windows. \<open>LogAnalyzer\<close>
  appends a log of a device it holds a history for, and it holds, from its construction
  on, an empty history, a status and an empty alert window for every configured device.
\<close>

theorem unseen_device_ingest:
  assumes q: "la_log_queue t = l # rest"
    and new: "map_of (device_logs t) (device_id l) = None"
    and pq: "log_queue s = l' # rest'"
    and known: "logs_cache s (device_id l') = Some h"
    and init: "LogAnalyzer_init cfg = Inr s0"
    and cfgd: "d \<in> set (device_ids cfg)"
  shows "device_logs (la_ingest t)
           = device_logs t @ [(device_id l, \<lparr>maxlen = 100, items = [l]\<rparr>)]
    \<and> la_log_queue (la_ingest t) = rest
    \<and> process_logs_step s
        = (False, s\<lparr>log_queue := rest',
                     logs_cache := (logs_cache s)(device_id l' \<mapsto> deque_append h l')\<rparr>)
    \<and> logs_cache s0 d = Some \<lparr>maxlen = nat (analysis_window cfg), items = []\<rparr>
    \<and> device_status s0 d = Some \<lparr>last_error = None, alerts = []\<rparr>
    \<and> alert_windows s0 d = Some \<lparr>maxlen = nat (alert_window cfg), items = []\<rparr>"
proof -
  have 1: "device_logs (la_ingest t)
           = device_logs t @ [(device_id l, \<lparr>maxlen = 100, items = [l]\<rparr>)]"
    and 2: "la_log_queue (la_ingest t) = rest"
    using q new by (simp_all add: la_ingest_def Let_def dict_set_new deque_append_def la_N_def)
  have 3: "process_logs_step s
        = (False, s\<lparr>log_queue := rest',
                     logs_cache := (logs_cache s)(device_id l' \<mapsto> deque_append h l')\<rparr>)"
    using pq known by (simp add: process_logs_step_def Let_def)
  from init LogAnalyzer_init_eq [of cfg]
  have s0: "s0 = \<lparr>logs_cache =
                  map_of (map (\<lambda>d. (d, \<lparr>maxlen = nat (analysis_window cfg), items = []\<rparr>))
                    (device_ids cfg)),
                device_status =
                  map_of (map (\<lambda>d. (d, \<lparr>last_error = None, alerts = []\<rparr>)) (device_ids cfg)),
                alert_windows =
                  map_of (map (\<lambda>d. (d, \<lparr>maxlen = nat (alert_window cfg), items = []\<rparr>))
                    (device_ids cfg)),
                log_queue = [], analysis_queue = [], alert_queue = [], ticks = 0\<rparr>"
    by (simp split: if_splits)
  have 4: "logs_cache s0 d = Some \<lparr>maxlen = nat (analysis_window cfg), items = []\<rparr>"
    and 5: "device_status s0 d = Some \<lparr>last_error = None, alerts = []\<rparr>"
    and 6: "alert_windows s0 d = Some \<lparr>maxlen = nat (alert_window cfg), items = []\<rparr>"
    unfolding s0 using cfgd by (simp_all add: map_of_const)
  from 1 2 3 4 5 6 show ?thesis by blast
qed

theorem unseen_device_ingest_witness:
  "la_log_queue (full_state\<lparr>la_log_queue := [unknown_log]\<rparr>) = [unknown_log]
   \<and> map_of (device_logs (full_state\<lparr>la_log_queue := [unknown_log]\<rparr>)) (device_id unknown_log)
       = None
   \<and> log_queue (final (main CONFIG (fixed_clock ''2025-01-01 00:00:00'') [Put error_log]))
       = [error_log]
   \<and> logs_cache (final (main CONFIG (fixed_clock ''2025-01-01 00:00:00'') [Put error_log]))
         (device_id error_log) = Some \<lparr>maxlen = 20, items = []\<rparr>
   \<and> LogAnalyzer_init CONFIG = Inr (projr (LogAnalyzer_init CONFIG))
   \<and> ''device1'' \<in> set (device_ids CONFIG)
   \<and> map fst (device_logs (la_ingest (full_state\<lparr>la_log_queue := [unknown_log]\<rparr>)))
       = [''device1'', ''device9'']
   \<and> la_log_queue (la_ingest (full_state\<lparr>la_log_queue := [unknown_log]\<rparr>)) = []
   \<and> fst (process_logs_step
         (final (main CONFIG (fixed_clock ''2025-01-01 00:00:00'') [Put error_log]))) = False
   \<and> alert_windows (projr (LogAnalyzer_init CONFIG)) ''device1''
       = Some \<lparr>maxlen = 10, items = []\<rparr>"
proof -
  let ?t = "full_state\<lparr>la_log_queue := [unknown_log]\<rparr>"
  let ?s = "final (main CONFIG (fixed_clock ''2025-01-01 00:00:00'') [Put error_log])"
  have q: "la_log_queue ?t = unknown_log # []" by simp
  have new: "map_of (device_logs ?t) (device_id unknown_log) = None"
    by (simp add: full_state_def unknown_log_def generate_log_def)
  have pq: "log_queue ?s = error_log # []"
    and known: "logs_cache ?s (device_id error_log) = Some \<lparr>maxlen = 20, items = []\<rparr>"
    by (simp_all add: error_log_def run_defs)
  have "\<not> isl (LogAnalyzer_init CONFIG)"
    by (simp add: LogAnalyzer_init_def CONFIG_def deque_new_def)
  then have init: "LogAnalyzer_init CONFIG = Inr (projr (LogAnalyzer_init CONFIG))"
    by (cases "LogAnalyzer_init CONFIG") simp_all
  have cfgd: "''device1'' \<in> set (device_ids CONFIG)" by (simp add: CONFIG_def)
  note th = unseen_device_ingest [OF q new pq known init cfgd]
  have dl: "map fst (device_logs ?t) = [''device1'']" by (simp add: full_state_def)
  have aw: "nat (alert_window CONFIG) = 10" by (simp add: CONFIG_def)
  from th q new pq known init cfgd dl aw show ?thesis
    by (simp add: unknown_log_def generate_log_def)
qed




text \<open>
  C10. Take a schedule of \<open>main\<close> along which the history of a device never holds an
  ERROR log (at every prefix of the schedule), and a threshold that is not negative, as
  every threshold in \<open>(0, 1)\<close> is. Then no alert of that device is ever put on
  \<open>alert_queue\<close>, and its alert window holds zeros only: every sample appended to it
  is 0.
\<close>

theorem no_error_no_alert:
  assumes thr: "0 \<le> alert_threshold cfg"
    and hist: "list_all (\<lambda>p. no_error_in_history d (final (main cfg now p))) (prefixes evs)"
  shows "filter (\<lambda>a. alert_device_id a = d) (alert_queue (final (main cfg now evs))) = []
       \<and> zero_window d (final (main cfg now evs))"
proof (cases "LogAnalyzer_init cfg")
  case (Inl e)
  then have "final (main cfg now evs) = no_system" by (simp add: main_def final_def)
  then show ?thesis by (simp add: no_system_def zero_window_def)
next
  case (Inr s0)
  then have m: "main cfg now p = run cfg now p s0" for p by (simp add: main_def)
  from Inr LogAnalyzer_init_eq [of cfg]
  have q0: "alert_queue s0 = []"
    and w0: "alert_windows s0 =
       map_of (map (\<lambda>d. (d, \<lparr>maxlen = nat (alert_window cfg), items = []\<rparr>)) (device_ids cfg))"
    by (auto split: if_splits)
  have z0: "zero_window d s0"
  proof (cases "d \<in> set (device_ids cfg)")
    case True
    then show ?thesis by (simp add: zero_window_def w0 map_of_const)
  next
    case False
    then have "alert_windows s0 d = None" unfolding w0 by (simp add: map_of_eq_None_iff image_iff)
    then show ?thesis by (simp add: zero_window_def)
  qed
  from hist have "list_all (\<lambda>p. no_error_in_history d (final (run cfg now p s0))) (prefixes evs)"
    by (simp add: m)
  from run_quiet_device [OF thr this z0] q0 show ?thesis by (simp add: m)
qed

theorem no_error_no_alert_witness:
  "0 \<le> alert_threshold CONFIG
   \<and> list_all (\<lambda>p. no_error_in_history ''device1''
          (final (main CONFIG (fixed_clock ''2025-01-01 00:00:00'') p)))
        (prefixes [Put info_log, Process, Analyze])
   \<and> filter (\<lambda>a. alert_device_id a = ''device1'')
        (alert_queue (final (main CONFIG (fixed_clock ''2025-01-01 00:00:00'')
           [Put info_log, Process, Analyze]))) = []
   \<and> zero_window ''device1''
        (final (main CONFIG (fixed_clock ''2025-01-01 00:00:00'') [Put info_log, Process, Analyze]))"
proof -
  have thr: "0 \<le> alert_threshold CONFIG" by (simp add: CONFIG_def)
  have hist: "list_all (\<lambda>p. no_error_in_history ''device1''
          (final (main CONFIG (fixed_clock ''2025-01-01 00:00:00'') p)))
        (prefixes [Put info_log, Process, Analyze])"
    by (simp add: no_error_in_history_def info_log_def run_defs)
  from no_error_no_alert [OF thr hist] thr hist show ?thesis by (intro conjI) simp_all
qed

text \<open>
  C9. Every result and every alert carries \<open>datetime.now()\<close>. A replay of the same
  logs, with the same cycles, on another day publishes results that differ from those of
  the first run in their timestamps.
\<close>

theorem replay_timestamps_counterexample:
  "analysis_queue (final (main CONFIG (fixed_clock ''2025-01-01 00:00:00'')
       [Put error_log, Process, Analyze]))
     \<noteq> analysis_queue (final (main CONFIG (fixed_clock ''2025-01-02 00:00:00'')
       [Put error_log, Process, Analyze]))
   \<and> map result_timestamp (analysis_queue (final (main CONFIG (fixed_clock ''2025-01-01 00:00:00'')
       [Put error_log, Process, Analyze]))) = [''2025-01-01 00:00:00'']
   \<and> map result_timestamp (analysis_queue (final (main CONFIG (fixed_clock ''2025-01-02 00:00:00'')
       [Put error_log, Process, Analyze]))) = [''2025-01-02 00:00:00'']"
  by (simp add: error_log_def run_defs)

text \<open>
  C9, as the code has it. Two runs of \<open>main\<close> from a freshly constructed analyser, on
  the same schedule of logs and cycles and with any two clocks, end alike (both raise or
  neither does) and put on \<open>analysis_queue\<close> and on \<open>alert_queue\<close> sequences that
  are equal in every field but the timestamp. (With one and the same clock the two runs
  are the same computation.)
\<close>

theorem replay_equal_but_timestamps:
  "isl (main cfg now1 evs) = isl (main cfg now2 evs)
   \<and> map erase_result (analysis_queue (final (main cfg now1 evs)))
       = map erase_result (analysis_queue (final (main cfg now2 evs)))
   \<and> map erase_alert (alert_queue (final (main cfg now1 evs)))
       = map erase_alert (alert_queue (final (main cfg now2 evs)))"
proof (cases "LogAnalyzer_init cfg")
  case (Inl e)
  then show ?thesis by (simp add: main_def)
next
  case (Inr s0)
  from run_sim [OF same_but_time_refl, of cfg now1 evs s0 now2] Inr
  show ?thesis by (simp add: main_def same_but_time_def)
qed

theorem replay_equal_but_timestamps_witness:
  "isl (main CONFIG (fixed_clock ''2025-01-01 00:00:00'') (nine_cycles @ [Analyze]))
     = isl (main CONFIG (fixed_clock ''2025-01-02 00:00:00'') (nine_cycles @ [Analyze]))
   \<and> map erase_result (analysis_queue (final
         (main CONFIG (fixed_clock ''2025-01-01 00:00:00'') (nine_cycles @ [Analyze]))))
       = map erase_result (analysis_queue (final
         (main CONFIG (fixed_clock ''2025-01-02 00:00:00'') (nine_cycles @ [Analyze]))))
   \<and> map erase_alert (alert_queue (final
         (main CONFIG (fixed_clock ''2025-01-01 00:00:00'') (nine_cycles @ [Analyze]))))
       = map erase_alert (alert_queue (final
         (main CONFIG (fixed_clock ''2025-01-02 00:00:00'') (nine_cycles @ [Analyze]))))"
  by (rule replay_equal_but_timestamps)

end
